theory Spec2Isabelle
  imports Main "HOL-Library.Sublist" "HOL-Library.Multiset"
begin

section \<open>Data model (src/types/index.ts)\<close>

text \<open>
  The TypeScript types are string-literal unions (\<open>CountryCode\<close>, \<open>CategoryId\<close>,
  \<open>OpenSourceLevel\<close>, \<open>ReservationSeverity\<close>, \<open>TrustScoreStatus\<close>, \<open>SortBy\<close>) that
  are plain strings when the code runs: every \<open>switch\<close> of the source has a
  \<open>default\<close> branch and every \<open>Set.has\<close> compares strings. They are modelled as
  \<open>string\<close>, so that the default branches are branches of the model. An optional field
  (\<open>f?: T\<close>) is a \<open>T option\<close>, \<open>None\<close> when the field is absent. The scores are
  small integers, on which the arithmetic of JavaScript numbers is exact; they are \<open>int\<close>.
  A \<open>string\<close> is a list of code units below 256, the first 256 code points (Latin-1);
  \<open>toLowerCase\<close> and \<open>trim\<close> below are the functions of the language on such strings, and
  text with a code point above U+00FF is outside the type. The records hold the fields that
  the modelled functions read.
\<close>

record Reservation =
  res_id :: string
  res_text :: string
  severity :: string

record USVendorComparison =
  vendor_id :: string
  vendor_name :: string
  trustScoreStatus :: string
  vendor_trustScore :: "int option"
  vendor_reservations :: "Reservation list option"

text \<open>
  The argument type of \<open>calculateTrustScore\<close>:
  \<open>Pick<Alternative, 'country' | 'isOpenSource' | 'openSourceLevel' | 'tags'> &
  { selfHostable?: boolean; reservations?: Reservation[] }\<close>. An \<open>Alternative\<close> has these
  fields and more, so it extends this record.
\<close>

record ScoreInput =
  country :: string
  isOpenSource :: bool
  openSourceLevel :: "string option"
  tags :: "string list"
  selfHostable :: "bool option"
  reservations :: "Reservation list option"

record Alternative = ScoreInput +
  alt_id :: string
  name :: string
  description :: string
  category :: string
  replacesUS :: "string list"
  usVendorComparisons :: "USVendorComparison list option"
  pricing :: string
  trustScore :: "int option"

record TrustScoreBreakdown =
  jurisdiction :: int
  openness :: int
  privacySignals :: int
  sovereigntyBonus :: int
  reservationPenalty :: int
  usCapApplied :: bool

record CalculatedTrustScore =
  score :: int
  breakdown :: TrustScoreBreakdown

record SelectedFilters =
  sel_category :: "string list"
  sel_country :: "string list"
  sel_pricing :: "string list"
  openSourceOnly :: bool

section \<open>Strings of the JavaScript library\<close>

text \<open>
  \<open>String.prototype.toLowerCase\<close>: among the first 256 code points the upper-case letters
  are A to Z (U+0041 to U+005A), U+00C0 to U+00D6 and U+00D8 to U+00DE; each maps to the
  letter 32 above it, one code unit to one code unit, and every other code unit stays.
\<close>

definition upperCaseLetters :: string where
  "upperCaseLetters = ''ABCDEFGHIJKLMNOPQRSTUVWXYZ'' @
     [CHR 0xC0, CHR 0xC1, CHR 0xC2, CHR 0xC3, CHR 0xC4, CHR 0xC5, CHR 0xC6, CHR 0xC7,
      CHR 0xC8, CHR 0xC9, CHR 0xCA, CHR 0xCB, CHR 0xCC, CHR 0xCD, CHR 0xCE, CHR 0xCF,
      CHR 0xD0, CHR 0xD1, CHR 0xD2, CHR 0xD3, CHR 0xD4, CHR 0xD5, CHR 0xD6,
      CHR 0xD8, CHR 0xD9, CHR 0xDA, CHR 0xDB, CHR 0xDC, CHR 0xDD, CHR 0xDE]"

definition lowerCaseLetters :: string where
  "lowerCaseLetters = ''abcdefghijklmnopqrstuvwxyz'' @
     [CHR 0xE0, CHR 0xE1, CHR 0xE2, CHR 0xE3, CHR 0xE4, CHR 0xE5, CHR 0xE6, CHR 0xE7,
      CHR 0xE8, CHR 0xE9, CHR 0xEA, CHR 0xEB, CHR 0xEC, CHR 0xED, CHR 0xEE, CHR 0xEF,
      CHR 0xF0, CHR 0xF1, CHR 0xF2, CHR 0xF3, CHR 0xF4, CHR 0xF5, CHR 0xF6,
      CHR 0xF8, CHR 0xF9, CHR 0xFA, CHR 0xFB, CHR 0xFC, CHR 0xFD, CHR 0xFE]"

definition toLowerChar :: "char \<Rightarrow> char" where
  "toLowerChar c =
     (case map_of (zip upperCaseLetters lowerCaseLetters) c of
        None \<Rightarrow> c
      | Some l \<Rightarrow> l)"

definition toLowerCase :: "string \<Rightarrow> string" where
  "toLowerCase s = map toLowerChar s"

text \<open>
  \<open>String.prototype.trim\<close> removes white space and line terminators from both ends;
  among the first 256 code points these are tab, line feed, vertical tab, form feed,
  carriage return, space and the no-break space U+00A0.
\<close>

definition isWhiteSpace :: "char \<Rightarrow> bool" where
  "isWhiteSpace c \<longleftrightarrow>
     c \<in> set [CHR 0x09, CHR 0x0A, CHR 0x0B, CHR 0x0C, CHR 0x0D, CHR '' '', CHR 0xA0]"

definition trim :: "string \<Rightarrow> string" where
  "trim s = rev (dropWhile isWhiteSpace (rev (dropWhile isWhiteSpace s)))"

text \<open>\<open>s.includes(t)\<close>: \<open>t\<close> occurs in \<open>s\<close> as a contiguous run of characters.\<close>

definition includes_str :: "string \<Rightarrow> string \<Rightarrow> bool" where
  "includes_str s t = sublist t s"

subsection \<open>Occurrence without regard to case, as the specification words it\<close>





section \<open>Trust score (src/utils/trustScore.ts)\<close>

definition euMemberStates :: "string list" where
  "euMemberStates =
     [''at'', ''be'', ''bg'', ''hr'', ''cy'', ''cz'', ''dk'', ''ee'', ''fi'', ''fr'', ''de'',
      ''gr'', ''hu'', ''ie'', ''it'', ''lv'', ''lt'', ''lu'', ''mt'', ''nl'', ''pl'', ''pt'',
      ''ro'', ''sk'', ''si'', ''es'', ''se'']"

definition europeanNonEU :: "string list" where
  "europeanNonEU = [''ch'', ''no'', ''gb'', ''is'']"

definition privacyTagGroupPrimary :: "string list" where
  "privacyTagGroupPrimary =
     [''privacy'', ''gdpr'', ''encryption'', ''zero-knowledge'', ''no-logs'']"

definition privacyTagGroupSecondary :: "string list" where
  "privacyTagGroupSecondary = [''offline'', ''federated'', ''local'']"

definition getJurisdictionScore :: "string \<Rightarrow> int" where
  "getJurisdictionScore c =
     (if c \<in> set euMemberStates then 4
      else if c \<in> set europeanNonEU then 3
      else if c = ''eu'' then 3
      else if c = ''us'' then 1
      else 2)"

definition getOpennessScore :: "'a ScoreInput_scheme \<Rightarrow> int" where
  "getOpennessScore alternative =
     (if openSourceLevel alternative = Some ''full'' then 3
      else if openSourceLevel alternative = Some ''partial'' then 2
      else if openSourceLevel alternative = Some ''none'' then 1
      else if isOpenSource alternative then 2 else 1)"

definition getPrivacySignalScore :: "string list \<Rightarrow> int" where
  "getPrivacySignalScore tgs =
     (let normalized = set (map toLowerCase tgs);
          score0 = 0;
          score1 = (if list_ex (\<lambda>tag. tag \<in> normalized) privacyTagGroupPrimary
                    then score0 + 1 else score0);
          score2 = (if list_ex (\<lambda>tag. tag \<in> normalized) privacyTagGroupSecondary
                    then score1 + 1 else score1)
      in score2)"

definition getSovereigntyScore :: "bool \<Rightarrow> int" where
  "getSovereigntyScore sh = (if sh then 2 else 0)"

definition getReservationPenalty :: "Reservation list \<Rightarrow> int" where
  "getReservationPenalty rs =
     foldl (\<lambda>sum reservation.
              if severity reservation = ''major'' then sum + 3
              else if severity reservation = ''moderate'' then sum + 2
              else sum + 1) 0 rs"

definition clampScore :: "int \<Rightarrow> int" where
  "clampScore v = min 10 (max 1 v)"

definition calculateTrustScore :: "'a ScoreInput_scheme \<Rightarrow> CalculatedTrustScore" where
  "calculateTrustScore alternative =
     (let jurisdiction' = getJurisdictionScore (country alternative);
          openness' = getOpennessScore alternative;
          privacySignals' = getPrivacySignalScore (tags alternative);
          sovereigntyBonus' =
            getSovereigntyScore (case selfHostable alternative of None \<Rightarrow> False | Some b \<Rightarrow> b);
          reservationPenalty' =
            getReservationPenalty (case reservations alternative of None \<Rightarrow> [] | Some rs \<Rightarrow> rs);
          rawScore' =
            jurisdiction' + openness' + privacySignals' + sovereigntyBonus' - reservationPenalty';
          clampedScore = clampScore rawScore';
          selfHostable' = (case selfHostable alternative of None \<Rightarrow> False | Some b \<Rightarrow> b);
          usCapApplied' = (country alternative = ''us'' \<and> \<not> selfHostable' \<and> clampedScore > 4);
          score' = (if usCapApplied' then 4 else clampedScore)
      in \<lparr> score = score',
           breakdown = \<lparr> jurisdiction = jurisdiction', openness = openness',
                         privacySignals = privacySignals',
                         sovereigntyBonus = sovereigntyBonus',
                         reservationPenalty = reservationPenalty',
                         usCapApplied = usCapApplied' \<rparr> \<rparr>)"

definition getEffectiveTrustScore :: "Alternative \<Rightarrow> int" where
  "getEffectiveTrustScore alternative =
     (case trustScore alternative of
        Some v \<Rightarrow> v
      | None \<Rightarrow>
          score (calculateTrustScore
            \<lparr> country = country alternative,
              isOpenSource = isOpenSource alternative,
              openSourceLevel = openSourceLevel alternative,
              tags = tags alternative,
              selfHostable = selfHostable alternative,
              reservations = reservations alternative \<rparr>))"

section \<open>Query pipeline (the \<open>filteredAlternatives\<close> memo of the browse page)\<close>

text \<open>
  \<open>Array.prototype.sort\<close> with a comparator is stable, and for a consistent comparator its
  result is the stably sorted array. It is modelled as the stable insertion sort: an
  element goes in front of the first later element that it does not exceed.
\<close>

primrec insort_cmp :: "('a \<Rightarrow> 'a \<Rightarrow> int) \<Rightarrow> 'a \<Rightarrow> 'a list \<Rightarrow> 'a list" where
  "insort_cmp cmp x [] = [x]"
| "insort_cmp cmp x (y # ys) =
     (if cmp x y \<le> 0 then x # y # ys else y # insort_cmp cmp x ys)"

definition array_sort :: "('a \<Rightarrow> 'a \<Rightarrow> int) \<Rightarrow> 'a list \<Rightarrow> 'a list" where
  "array_sort cmp xs = foldr (insort_cmp cmp) xs []"

text \<open>
  A comparator is consistent when its relation ``not after'' is total and transitive; for
  such a comparator the language fixes the result of \<open>sort\<close>.
\<close>

definition consistent :: "('a \<Rightarrow> 'a \<Rightarrow> int) \<Rightarrow> bool" where
  "consistent cmp \<longleftrightarrow>
     (\<forall>x y. cmp x y \<le> 0 \<or> cmp y x \<le> 0)
     \<and> (\<forall>x y z. cmp x y \<le> 0 \<and> cmp y z \<le> 0 \<longrightarrow> cmp x z \<le> 0)"

text \<open>The predicate of the search filter, for the lower-cased term.\<close>

definition searchMatches :: "string \<Rightarrow> Alternative \<Rightarrow> bool" where
  "searchMatches term alt \<longleftrightarrow>
     includes_str (toLowerCase (name alt)) term
     \<or> includes_str (toLowerCase (description alt)) term
     \<or> list_ex (\<lambda>r. includes_str (toLowerCase r) term) (replacesUS alt)
     \<or> list_ex (\<lambda>t. includes_str (toLowerCase t) term) (tags alt)"

text \<open>
  The comparator given to \<open>result.sort\<close>. \<open>String.prototype.localeCompare\<close> belongs to
  the platform and depends on its locale; it is a parameter.
\<close>

definition sortComparator ::
  "(string \<Rightarrow> string \<Rightarrow> int) \<Rightarrow> string \<Rightarrow> Alternative \<Rightarrow> Alternative \<Rightarrow> int" where
  "sortComparator localeCompare sortBy a b =
     (if sortBy = ''name'' then localeCompare (name a) (name b)
      else if sortBy = ''country'' then localeCompare (country a) (country b)
      else if sortBy = ''category'' then localeCompare (category a) (category b)
      else 0)"

definition filteredAlternatives ::
  "(string \<Rightarrow> string \<Rightarrow> int) \<Rightarrow> Alternative list \<Rightarrow> string \<Rightarrow> SelectedFilters \<Rightarrow> string
     \<Rightarrow> Alternative list" where
  "filteredAlternatives localeCompare alternatives searchTerm selectedFilters sortBy =
     (let result = alternatives;
          result = (if trim searchTerm \<noteq> []
                    then (let term = toLowerCase searchTerm
                          in filter (\<lambda>alt. searchMatches term alt) result)
                    else result);
          result = (if sel_category selectedFilters \<noteq> []
                    then filter (\<lambda>alt. category alt \<in> set (sel_category selectedFilters)) result
                    else result);
          result = (if sel_country selectedFilters \<noteq> []
                    then filter (\<lambda>alt. country alt \<in> set (sel_country selectedFilters)) result
                    else result);
          result = (if sel_pricing selectedFilters \<noteq> []
                    then filter (\<lambda>alt. pricing alt \<in> set (sel_pricing selectedFilters)) result
                    else result);
          result = (if openSourceOnly selectedFilters
                    then filter (\<lambda>alt. isOpenSource alt) result
                    else result)
      in array_sort (sortComparator localeCompare sortBy) result)"

section \<open>Validation tool (scripts/validate-us-vendor-comparisons.cjs)\<close>

text \<open>
  One constructor for each message that the tool pushes to \<open>failures\<close>, with the
  identifiers that the message prints:
  \<^item> \<open>MissingComparisons a\<close>: ``a: missing usVendorComparisons despite replacesUS entries.''
  \<^item> \<open>InvalidName a\<close>: ``a: vendor entry has an invalid name.''
  \<^item> \<open>UnexpectedStatus a v s\<close>: ``a:v has trustScoreStatus="s" ...''
  \<^item> \<open>ReadyWithoutScore a v\<close>: ``a:v has trustScoreStatus="ready" but ...'' no numeric score
  \<^item> \<open>ReadyWithoutReservations a v\<close>: ``a:v has trustScoreStatus="ready" but zero reservations.''
  \<^item> \<open>PendingWithScore a v\<close>: ``a:v has trustScoreStatus="pending" but unexpectedly has a
    trustScore value.''
  \<^item> \<open>DuplicateVendorId a v\<close>: ``a: duplicate vendor id "v" in usVendorComparisons.''
\<close>

datatype Failure =
    MissingComparisons string
  | InvalidName string
  | UnexpectedStatus string string string
  | ReadyWithoutScore string string
  | ReadyWithoutReservations string string
  | PendingWithScore string string
  | DuplicateVendorId string string

record ValidationResult =
  failures :: "Failure list"
  comparedVendors :: nat

text \<open>
  The body of the inner loop \<open>for (const vendor of comparisons)\<close>, on the state
  \<open>(failures, comparedVendors, seenIds)\<close>.
\<close>

definition vendorStep ::
  "string \<Rightarrow> USVendorComparison \<Rightarrow> Failure list \<times> nat \<times> string set
     \<Rightarrow> Failure list \<times> nat \<times> string set" where
  "vendorStep aid vendor st =
     (case st of (fs, compared, seenIds) \<Rightarrow>
        let compared = compared + 1;
            fs = (if vendor_name vendor = [] then fs @ [InvalidName aid] else fs);
            fs = (if trustScoreStatus vendor \<noteq> ''pending'' \<and> trustScoreStatus vendor \<noteq> ''ready''
                  then fs @ [UnexpectedStatus aid (vendor_id vendor) (trustScoreStatus vendor)]
                  else fs);
            fs = (if trustScoreStatus vendor = ''ready'' \<and> vendor_trustScore vendor = None
                  then fs @ [ReadyWithoutScore aid (vendor_id vendor)]
                  else fs);
            fs = (if trustScoreStatus vendor = ''pending'' \<and> vendor_trustScore vendor \<noteq> None
                  then fs @ [PendingWithScore aid (vendor_id vendor)]
                  else fs)
        in if vendor_id vendor \<in> seenIds
           then (fs @ [DuplicateVendorId aid (vendor_id vendor)], compared, seenIds)
           else (fs, compared, insert (vendor_id vendor) seenIds))"

text \<open>The body of the outer loop \<open>for (const alternative of alternatives)\<close>.\<close>

definition alternativeStep :: "Alternative \<Rightarrow> Failure list \<times> nat \<Rightarrow> Failure list \<times> nat" where
  "alternativeStep alternative st =
     (case st of (fs, compared) \<Rightarrow>
        let comparisons = (case usVendorComparisons alternative of None \<Rightarrow> [] | Some cs \<Rightarrow> cs)
        in if replacesUS alternative \<noteq> [] \<and> comparisons = []
           then (fs @ [MissingComparisons (alt_id alternative)], compared)
           else (case fold (vendorStep (alt_id alternative)) comparisons (fs, compared, {}) of
                   (fs', compared', seenIds) \<Rightarrow> (fs', compared')))"

definition validateUSVendorComparisons :: "Alternative list \<Rightarrow> ValidationResult" where
  "validateUSVendorComparisons alternatives =
     (case fold alternativeStep alternatives ([], 0) of
        (fs, compared) \<Rightarrow> \<lparr> failures = fs, comparedVendors = compared \<rparr>)"

text \<open>
  The end of the script: \<open>process.exit(1)\<close> when there is a failure, else the script
  prints its summary and ends with status 0.
\<close>

definition exitStatus :: "ValidationResult \<Rightarrow> nat" where
  "exitStatus r = (if failures r \<noteq> [] then 1 else 0)"

text \<open>
  The text of the same script that follows the type declarations in
  \<open>src/types/index.ts\<close> has another inner loop: a ready comparison is checked for
  reservations and for a numeric score, and a pending one is not checked.
\<close>

definition vendorStep_B ::
  "string \<Rightarrow> USVendorComparison \<Rightarrow> Failure list \<times> nat \<times> string set
     \<Rightarrow> Failure list \<times> nat \<times> string set" where
  "vendorStep_B aid vendor st =
     (case st of (fs, compared, seenIds) \<Rightarrow>
        let compared = compared + 1;
            fs = (if vendor_name vendor = [] then fs @ [InvalidName aid] else fs);
            fs = (if trustScoreStatus vendor = ''ready''
                  then (let rs = (case vendor_reservations vendor of None \<Rightarrow> [] | Some rs \<Rightarrow> rs);
                            fs = (if rs = []
                                  then fs @ [ReadyWithoutReservations aid (vendor_id vendor)]
                                  else fs);
                            fs = (if vendor_trustScore vendor = None
                                  then fs @ [ReadyWithoutScore aid (vendor_id vendor)]
                                  else fs)
                        in fs)
                  else if trustScoreStatus vendor \<noteq> ''pending''
                  then fs @ [UnexpectedStatus aid (vendor_id vendor) (trustScoreStatus vendor)]
                  else fs)
        in if vendor_id vendor \<in> seenIds
           then (fs @ [DuplicateVendorId aid (vendor_id vendor)], compared, seenIds)
           else (fs, compared, insert (vendor_id vendor) seenIds))"

definition alternativeStep_B :: "Alternative \<Rightarrow> Failure list \<times> nat \<Rightarrow> Failure list \<times> nat" where
  "alternativeStep_B alternative st =
     (case st of (fs, compared) \<Rightarrow>
        let comparisons = (case usVendorComparisons alternative of None \<Rightarrow> [] | Some cs \<Rightarrow> cs)
        in if replacesUS alternative \<noteq> [] \<and> comparisons = []
           then (fs @ [MissingComparisons (alt_id alternative)], compared)
           else (case fold (vendorStep_B (alt_id alternative)) comparisons (fs, compared, {}) of
                   (fs', compared', seenIds) \<Rightarrow> (fs', compared')))"

definition validateUSVendorComparisons_B :: "Alternative list \<Rightarrow> ValidationResult" where
  "validateUSVendorComparisons_B alternatives =
     (case fold alternativeStep_B alternatives ([], 0) of
        (fs, compared) \<Rightarrow> \<lparr> failures = fs, comparedVendors = compared \<rparr>)"

text \<open>
  What both texts of the tool report for an entry, as a property of the failure list:
  missing comparisons, a ready comparison without a numeric score, a repeated comparison id.
\<close>

definition comparisonsOf :: "Alternative \<Rightarrow> USVendorComparison list" where
  "comparisonsOf alternative =
     (case usVendorComparisons alternative of None \<Rightarrow> [] | Some cs \<Rightarrow> cs)"

definition reported :: "Alternative \<Rightarrow> Failure list \<Rightarrow> bool" where
  "reported alternative fs \<longleftrightarrow>
     (replacesUS alternative \<noteq> [] \<and> comparisonsOf alternative = []
        \<longrightarrow> MissingComparisons (alt_id alternative) \<in> set fs)
     \<and> (\<forall>v \<in> set (comparisonsOf alternative).
           trustScoreStatus v = ''ready'' \<and> vendor_trustScore v = None
           \<longrightarrow> ReadyWithoutScore (alt_id alternative) (vendor_id v) \<in> set fs)
     \<and> (\<not> distinct (map vendor_id (comparisonsOf alternative))
           \<longrightarrow> (\<exists>v \<in> set (comparisonsOf alternative).
                  DuplicateVendorId (alt_id alternative) (vendor_id v) \<in> set fs))"

definition reportedPending :: "Alternative \<Rightarrow> Failure list \<Rightarrow> bool" where
  "reportedPending alternative fs \<longleftrightarrow>
     (\<forall>v \<in> set (comparisonsOf alternative).
        trustScoreStatus v = ''pending'' \<and> vendor_trustScore v \<noteq> None
        \<longrightarrow> PendingWithScore (alt_id alternative) (vendor_id v) \<in> set fs)"

definition reportedReservations :: "Alternative \<Rightarrow> Failure list \<Rightarrow> bool" where
  "reportedReservations alternative fs \<longleftrightarrow>
     (\<forall>v \<in> set (comparisonsOf alternative).
        trustScoreStatus v = ''ready''
        \<and> (vendor_reservations v = None \<or> vendor_reservations v = Some [])
        \<longrightarrow> ReadyWithoutReservations (alt_id alternative) (vendor_id v) \<in> set fs)"

section \<open>Example entries\<close>


definition example_us :: ScoreInput where
  "example_us = \<lparr> country = ''us'', isOpenSource = True, openSourceLevel = Some ''full'',
     tags = [''Privacy'', ''offline''], selfHostable = Some False, reservations = Some [] \<rparr>"

definition example_us_absent :: ScoreInput where
  "example_us_absent = \<lparr> country = ''us'', isOpenSource = True, openSourceLevel = None,
     tags = [''GDPR'', ''local''], selfHostable = None, reservations = None \<rparr>"

definition example_override :: Alternative where
  "example_override = \<lparr> country = ''us'', isOpenSource = False, openSourceLevel = None,
     tags = [], selfHostable = None, reservations = None,
     alt_id = ''acme'', name = ''Acme'', description = ''Hosted mail'', category = ''email'',
     replacesUS = [''Gmail''], usVendorComparisons = None, pricing = ''paid'',
     trustScore = Some 7 \<rparr>"

definition noFilters :: SelectedFilters where
  "noFilters = \<lparr> sel_category = [], sel_country = [], sel_pricing = [],
     openSourceOnly = False \<rparr>"

definition alt_mailbox :: Alternative where
  "alt_mailbox = \<lparr> country = ''de'', isOpenSource = False, openSourceLevel = None,
     tags = [''email''], selfHostable = None, reservations = None,
     alt_id = ''mailbox'', name = ''Mailbox'', description = ''Email hosting'',
     category = ''email'', replacesUS = [''Gmail''], usVendorComparisons = None,
     pricing = ''paid'', trustScore = Some 5 \<rparr>"

definition alt_nextcloud :: Alternative where
  "alt_nextcloud = \<lparr> country = ''de'', isOpenSource = True, openSourceLevel = None,
     tags = [''files''], selfHostable = Some True, reservations = None,
     alt_id = ''nextcloud'', name = ''Nextcloud'', description = ''File sync'',
     category = ''cloud-storage'', replacesUS = [''Dropbox''], usVendorComparisons = None,
     pricing = ''free'', trustScore = Some 9 \<rparr>"

definition alt_proton :: Alternative where
  "alt_proton = \<lparr> country = ''ch'', isOpenSource = True, openSourceLevel = None,
     tags = [''vpn''], selfHostable = None, reservations = None,
     alt_id = ''proton'', name = ''Proton'', description = ''Encrypted services'',
     category = ''vpn'', replacesUS = [''NordVPN''], usVendorComparisons = None,
     pricing = ''freemium'', trustScore = Some 3 \<rparr>"

definition vendor_ready_bare :: USVendorComparison where
  "vendor_ready_bare = \<lparr> vendor_id = ''gmail'', vendor_name = ''Gmail'',
     trustScoreStatus = ''ready'', vendor_trustScore = Some 3, vendor_reservations = None \<rparr>"

definition vendor_pending_scored :: USVendorComparison where
  "vendor_pending_scored = \<lparr> vendor_id = ''gmail'', vendor_name = ''Gmail'',
     trustScoreStatus = ''pending'', vendor_trustScore = Some 3, vendor_reservations = None \<rparr>"

definition alt_ready_bare :: Alternative where
  "alt_ready_bare = alt_mailbox \<lparr> usVendorComparisons := Some [vendor_ready_bare] \<rparr>"

definition alt_pending_scored :: Alternative where
  "alt_pending_scored = alt_mailbox \<lparr> usVendorComparisons := Some [vendor_pending_scored] \<rparr>"

definition example_us_low :: ScoreInput where
  "example_us_low = \<lparr> country = ''us'', isOpenSource = False, openSourceLevel = None,
     tags = [], selfHostable = Some False, reservations = Some [] \<rparr>"

section \<open>Properties of the trust score\<close>

lemma nullish_false: "(case x of None \<Rightarrow> False | Some b \<Rightarrow> b) \<longleftrightarrow> x = Some True"
  by (cases x) auto


lemma clampScore_gt4: "4 < clampScore v \<longleftrightarrow> 4 < v"
  by (auto simp: clampScore_def)

lemma breakdown_calculateTrustScore:
  "jurisdiction (breakdown (calculateTrustScore a)) = getJurisdictionScore (country a)"
  "openness (breakdown (calculateTrustScore a)) = getOpennessScore a"
  "privacySignals (breakdown (calculateTrustScore a)) = getPrivacySignalScore (tags a)"
  "sovereigntyBonus (breakdown (calculateTrustScore a)) = getSovereigntyScore (selfHostable a = Some True)"
  "reservationPenalty (breakdown (calculateTrustScore a)) =
     getReservationPenalty (case reservations a of None \<Rightarrow> [] | Some rs \<Rightarrow> rs)"
  by (simp_all add: calculateTrustScore_def Let_def nullish_false)

lemma usCapApplied_calculateTrustScore:
  "usCapApplied (breakdown (calculateTrustScore a)) \<longleftrightarrow>
     country a = ''us'' \<and> selfHostable a \<noteq> Some True
     \<and> 4 < clampScore (getJurisdictionScore (country a) + getOpennessScore a
            + getPrivacySignalScore (tags a) + getSovereigntyScore (selfHostable a = Some True)
            - getReservationPenalty (case reservations a of None \<Rightarrow> [] | Some rs \<Rightarrow> rs))"
  by (simp add: calculateTrustScore_def Let_def nullish_false)

lemma score_calculateTrustScore:
  "score (calculateTrustScore a) =
     (if usCapApplied (breakdown (calculateTrustScore a)) then 4
      else clampScore (getJurisdictionScore (country a) + getOpennessScore a
            + getPrivacySignalScore (tags a) + getSovereigntyScore (selfHostable a = Some True)
            - getReservationPenalty (case reservations a of None \<Rightarrow> [] | Some rs \<Rightarrow> rs)))"
  by (simp add: calculateTrustScore_def Let_def nullish_false)


text \<open>
  C2: for an entry of jurisdiction \<open>us\<close> that is not self-hostable (the flag false or
  absent), inputs whose raw score, computed from the entry's fields, is above 4 give the
  final score 4 with \<open>usCapApplied\<close> true; \<open>usCapApplied\<close> is true exactly when the
  jurisdiction is \<open>us\<close>, the entry is not self-hostable and the clamped raw score of the
  entry's fields exceeds 4; and when it is false the score is that clamped raw score.
\<close>

theorem us_cap:
  "(country a = ''us'' \<and> selfHostable a \<noteq> Some True
      \<and> 4 < getJurisdictionScore (country a) + getOpennessScore a
            + getPrivacySignalScore (tags a) + getSovereigntyScore (selfHostable a = Some True)
            - getReservationPenalty (case reservations a of None \<Rightarrow> [] | Some rs \<Rightarrow> rs)
    \<longrightarrow> score (calculateTrustScore a) = 4 \<and> usCapApplied (breakdown (calculateTrustScore a)))
   \<and> (usCapApplied (breakdown (calculateTrustScore a)) \<longleftrightarrow>
        country a = ''us'' \<and> selfHostable a \<noteq> Some True
        \<and> 4 < clampScore (getJurisdictionScore (country a) + getOpennessScore a
            + getPrivacySignalScore (tags a) + getSovereigntyScore (selfHostable a = Some True)
            - getReservationPenalty (case reservations a of None \<Rightarrow> [] | Some rs \<Rightarrow> rs)))
   \<and> (\<not> usCapApplied (breakdown (calculateTrustScore a)) \<longrightarrow>
        score (calculateTrustScore a) =
          clampScore (getJurisdictionScore (country a) + getOpennessScore a
            + getPrivacySignalScore (tags a) + getSovereigntyScore (selfHostable a = Some True)
            - getReservationPenalty (case reservations a of None \<Rightarrow> [] | Some rs \<Rightarrow> rs)))"
  unfolding score_calculateTrustScore usCapApplied_calculateTrustScore
  by (cases "selfHostable a = Some True") (auto simp: clampScore_gt4)

lemma calculateTrustScore_fields:
  "calculateTrustScore a =
     calculateTrustScore \<lparr> country = country a, isOpenSource = isOpenSource a,
       openSourceLevel = openSourceLevel a, tags = tags a, selfHostable = selfHostable a,
       reservations = reservations a \<rparr>"
  by (simp add: calculateTrustScore_def getOpennessScore_def)

text \<open>
  C3: an entry whose \<open>trustScore\<close> is set has that value as its effective score, whatever
  its other fields are; an entry without one has the score of \<open>calculateTrustScore\<close>.
\<close>

theorem getEffectiveTrustScore_override:
  "(trustScore a = Some v \<longrightarrow> getEffectiveTrustScore a = v)
   \<and> (trustScore a = None \<longrightarrow> getEffectiveTrustScore a = score (calculateTrustScore a))"
  using calculateTrustScore_fields [of a] by (simp add: getEffectiveTrustScore_def)

lemma privacy_groups_disjoint:
  "set privacyTagGroupPrimary \<inter> set privacyTagGroupSecondary = {}"
  by (simp add: privacyTagGroupPrimary_def privacyTagGroupSecondary_def)

lemma getPrivacySignalScore_eq:
  "getPrivacySignalScore tgs =
     (if \<exists>t \<in> set tgs. toLowerCase t \<in> set privacyTagGroupPrimary then 1 else 0)
     + (if \<exists>t \<in> set tgs. toLowerCase t \<in> set privacyTagGroupSecondary then 1 else 0)"
  by (auto simp: getPrivacySignalScore_def Let_def list_ex_iff)

lemma toLowerCase_primary:
  "t \<in> set privacyTagGroupPrimary \<Longrightarrow> toLowerCase t = t"
  by (auto simp: privacyTagGroupPrimary_def toLowerCase_def toLowerChar_def upperCaseLetters_def lowerCaseLetters_def)

text \<open>
  C7: the privacy-signal score is 1 if some lower-cased tag is in the primary group, plus 1
  if some lower-cased tag is in the secondary group; it is at most 2; tags that all fall in
  one group give 1, however many they are: the five primary tags together score 1, as each
  of them alone does.
\<close>

theorem getPrivacySignalScore_groups:
  "getPrivacySignalScore tgs =
     (if \<exists>t \<in> set tgs. toLowerCase t \<in> set privacyTagGroupPrimary then 1 else 0)
     + (if \<exists>t \<in> set tgs. toLowerCase t \<in> set privacyTagGroupSecondary then 1 else 0)
   \<and> 0 \<le> getPrivacySignalScore tgs \<and> getPrivacySignalScore tgs \<le> 2
   \<and> (tgs \<noteq> [] \<and> (\<forall>t \<in> set tgs. toLowerCase t \<in> set privacyTagGroupPrimary)
        \<longrightarrow> getPrivacySignalScore tgs = 1)
   \<and> (tgs \<noteq> [] \<and> (\<forall>t \<in> set tgs. toLowerCase t \<in> set privacyTagGroupSecondary)
        \<longrightarrow> getPrivacySignalScore tgs = 1)
   \<and> getPrivacySignalScore [''privacy'', ''gdpr'', ''encryption'', ''zero-knowledge'', ''no-logs''] = 1
   \<and> (p \<in> set privacyTagGroupPrimary \<longrightarrow> getPrivacySignalScore [p] = 1)"
proof -
  have one: "getPrivacySignalScore ts = 1"
    if "ts \<noteq> []" "\<forall>t \<in> set ts. toLowerCase t \<in> set privacyTagGroupPrimary" for ts
  proof -
    from that obtain t where "t \<in> set ts" by (cases ts) auto
    with that have "\<exists>t \<in> set ts. toLowerCase t \<in> set privacyTagGroupPrimary" by blast
    moreover have "\<not> (\<exists>t \<in> set ts. toLowerCase t \<in> set privacyTagGroupSecondary)"
      using that privacy_groups_disjoint by blast
    ultimately show ?thesis by (simp add: getPrivacySignalScore_eq)
  qed
  have two: "getPrivacySignalScore ts = 1"
    if "ts \<noteq> []" "\<forall>t \<in> set ts. toLowerCase t \<in> set privacyTagGroupSecondary" for ts
  proof -
    from that obtain t where "t \<in> set ts" by (cases ts) auto
    with that have "\<exists>t \<in> set ts. toLowerCase t \<in> set privacyTagGroupSecondary" by blast
    moreover have "\<not> (\<exists>t \<in> set ts. toLowerCase t \<in> set privacyTagGroupPrimary)"
      using that privacy_groups_disjoint by blast
    ultimately show ?thesis by (simp add: getPrivacySignalScore_eq)
  qed
  have all5: "getPrivacySignalScore privacyTagGroupPrimary = 1"
    by (rule one) (simp_all add: toLowerCase_primary, simp add: privacyTagGroupPrimary_def)
  have single: "getPrivacySignalScore [p] = 1" if "p \<in> set privacyTagGroupPrimary"
    by (rule one) (simp_all add: toLowerCase_primary that)
  show ?thesis
    using one [of tgs] two [of tgs] all5 single
    by (simp add: getPrivacySignalScore_eq privacyTagGroupPrimary_def)
qed

text \<open>
  C8: the jurisdiction score is 4 for each of the 27 EU member states, 3 for each code of
  the European non-EU set (\<open>ch\<close>, \<open>no\<close>, \<open>gb\<close>, \<open>is\<close>), 3 for \<open>eu\<close>, 1 for \<open>us\<close> and 2
  for every other code.
\<close>

theorem getJurisdictionScore_lookup:
  "(c \<in> set euMemberStates \<longrightarrow> getJurisdictionScore c = 4)
   \<and> (c \<in> set europeanNonEU \<longrightarrow> getJurisdictionScore c = 3)
   \<and> getJurisdictionScore ''eu'' = 3
   \<and> getJurisdictionScore ''us'' = 1
   \<and> (c \<notin> set euMemberStates \<and> c \<notin> set europeanNonEU \<and> c \<noteq> ''eu'' \<and> c \<noteq> ''us''
        \<longrightarrow> getJurisdictionScore c = 2)
   \<and> length euMemberStates = 27 \<and> distinct euMemberStates
   \<and> set europeanNonEU = {''ch'', ''no'', ''gb'', ''is''}"
proof -
  have 1: "c \<in> set euMemberStates \<longrightarrow> getJurisdictionScore c = 4"
    by (simp add: getJurisdictionScore_def)
  have 2: "c \<in> set europeanNonEU \<longrightarrow> getJurisdictionScore c = 3"
    by (auto simp: getJurisdictionScore_def europeanNonEU_def euMemberStates_def)
  have 3: "getJurisdictionScore ''eu'' = 3"
    by (simp add: getJurisdictionScore_def europeanNonEU_def euMemberStates_def)
  have 4: "getJurisdictionScore ''us'' = 1"
    by (simp add: getJurisdictionScore_def europeanNonEU_def euMemberStates_def)
  have 5: "c \<notin> set euMemberStates \<and> c \<notin> set europeanNonEU \<and> c \<noteq> ''eu'' \<and> c \<noteq> ''us''
        \<longrightarrow> getJurisdictionScore c = 2"
    by (simp add: getJurisdictionScore_def)
  have 6: "length euMemberStates = 27" "distinct euMemberStates"
    by (simp_all add: euMemberStates_def)
  have 7: "set europeanNonEU = {''ch'', ''no'', ''gb'', ''is''}"
    by (simp add: europeanNonEU_def)
  from 1 2 3 4 5 6 7 show ?thesis by blast
qed

lemma clampScore_le4: "clampScore v \<le> 4 \<longleftrightarrow> v \<le> 4"
  by (auto simp: clampScore_def)

lemma getOpennessScore_update:
  "getOpennessScore (a\<lparr>selfHostable := x\<rparr>) = getOpennessScore a"
  "getOpennessScore (a\<lparr>reservations := y\<rparr>) = getOpennessScore a"
  by (simp_all add: getOpennessScore_def)

text \<open>
  C10: an absent \<open>selfHostable\<close> is treated as false: the sovereignty bonus is 0, the
  result is that of the entry with the flag set to false, and a \<open>us\<close> entry is subject to
  the ceiling. An absent \<open>reservations\<close> is treated as the empty list: the penalty is 0.
\<close>

theorem absent_optional_fields:
  "(selfHostable a = None \<longrightarrow>
      sovereigntyBonus (breakdown (calculateTrustScore a)) = 0
      \<and> calculateTrustScore a = calculateTrustScore (a\<lparr>selfHostable := Some False\<rparr>)
      \<and> (country a = ''us'' \<longrightarrow>
            score (calculateTrustScore a) \<le> 4
            \<and> (usCapApplied (breakdown (calculateTrustScore a)) \<longleftrightarrow>
                 4 < getJurisdictionScore (country a) + getOpennessScore a
                     + getPrivacySignalScore (tags a)
                     - reservationPenalty (breakdown (calculateTrustScore a)))))
   \<and> (reservations a = None \<longrightarrow>
        reservationPenalty (breakdown (calculateTrustScore a)) = 0
        \<and> calculateTrustScore a = calculateTrustScore (a\<lparr>reservations := Some []\<rparr>))"
proof -
  have sh: "sovereigntyBonus (breakdown (calculateTrustScore a)) = 0"
      "calculateTrustScore a = calculateTrustScore (a\<lparr>selfHostable := Some False\<rparr>)"
    if "selfHostable a = None"
    using that by (simp_all add: calculateTrustScore_def Let_def getSovereigntyScore_def getOpennessScore_update)
  have cap: "score (calculateTrustScore a) \<le> 4"
      "usCapApplied (breakdown (calculateTrustScore a)) \<longleftrightarrow>
                 4 < getJurisdictionScore (country a) + getOpennessScore a
                     + getPrivacySignalScore (tags a)
                     - reservationPenalty (breakdown (calculateTrustScore a))"
    if "selfHostable a = None" "country a = ''us''"
    using that
    by (simp_all add: score_calculateTrustScore usCapApplied_calculateTrustScore
          breakdown_calculateTrustScore clampScore_gt4 clampScore_le4 getSovereigntyScore_def)
  have rs: "reservationPenalty (breakdown (calculateTrustScore a)) = 0"
      "calculateTrustScore a = calculateTrustScore (a\<lparr>reservations := Some []\<rparr>)"
    if "reservations a = None"
    using that by (simp_all add: calculateTrustScore_def Let_def getReservationPenalty_def getOpennessScore_update)
  from sh cap rs show ?thesis by blast
qed

lemma example_scores:
  "getPrivacySignalScore [''encryption'', ''privacy''] = 1"
  "getPrivacySignalScore [''Privacy'', ''offline''] = 2"
  "getPrivacySignalScore [''GDPR'', ''local''] = 2"
  "getPrivacySignalScore [] = 0"
  by (simp_all add: getPrivacySignalScore_eq toLowerCase_def toLowerChar_def upperCaseLetters_def lowerCaseLetters_def
        privacyTagGroupPrimary_def privacyTagGroupSecondary_def)

lemma example_jurisdiction:
  "getJurisdictionScore ''de'' = 4" "getJurisdictionScore ''us'' = 1"
  by (simp_all add: getJurisdictionScore_def euMemberStates_def europeanNonEU_def)


text \<open>
  A \<open>us\<close> entry, fully open, with a tag of each privacy group, raw-scores 6 and is capped
  at 4; a \<open>us\<close> entry that raw-scores 2 keeps the score 2 and the flag is false.
\<close>

theorem us_cap_witness:
  "country example_us = ''us'' \<and> selfHostable example_us \<noteq> Some True
   \<and> 4 < getJurisdictionScore (country example_us) + getOpennessScore example_us
         + getPrivacySignalScore (tags example_us)
         + getSovereigntyScore (selfHostable example_us = Some True)
         - getReservationPenalty (case reservations example_us of None \<Rightarrow> [] | Some rs \<Rightarrow> rs)
   \<and> score (calculateTrustScore example_us) = 4
   \<and> usCapApplied (breakdown (calculateTrustScore example_us))
   \<and> country example_us_low = ''us'' \<and> selfHostable example_us_low \<noteq> Some True
   \<and> getJurisdictionScore (country example_us_low) + getOpennessScore example_us_low
         + getPrivacySignalScore (tags example_us_low)
         + getSovereigntyScore (selfHostable example_us_low = Some True)
         - getReservationPenalty (case reservations example_us_low of None \<Rightarrow> [] | Some rs \<Rightarrow> rs)
       = 2
   \<and> \<not> usCapApplied (breakdown (calculateTrustScore example_us_low))
   \<and> score (calculateTrustScore example_us_low) = 2"
proof -
  have h: "country example_us = ''us'' \<and> selfHostable example_us \<noteq> Some True
   \<and> 4 < getJurisdictionScore (country example_us) + getOpennessScore example_us
         + getPrivacySignalScore (tags example_us)
         + getSovereigntyScore (selfHostable example_us = Some True)
         - getReservationPenalty (case reservations example_us of None \<Rightarrow> [] | Some rs \<Rightarrow> rs)"
    by (simp add: example_us_def example_scores
          example_jurisdiction getOpennessScore_def getSovereigntyScore_def
          getReservationPenalty_def)
  have l: "country example_us_low = ''us''" "selfHostable example_us_low \<noteq> Some True"
    by (simp_all add: example_us_low_def)
  have r: "getJurisdictionScore (country example_us_low) + getOpennessScore example_us_low
         + getPrivacySignalScore (tags example_us_low)
         + getSovereigntyScore (selfHostable example_us_low = Some True)
         - getReservationPenalty (case reservations example_us_low of None \<Rightarrow> [] | Some rs \<Rightarrow> rs)
       = 2"
    by (simp add: example_us_low_def example_scores
          example_jurisdiction getOpennessScore_def getSovereigntyScore_def
          getReservationPenalty_def)
  have c: "clampScore 2 = 2" by (simp add: clampScore_def)
  note low = us_cap [of example_us_low, unfolded r c]
  from low have n: "\<not> usCapApplied (breakdown (calculateTrustScore example_us_low))"
    by simp
  with low have s: "score (calculateTrustScore example_us_low) = 2"
    by blast
  from h l r n s us_cap [of example_us] show ?thesis by blast
qed

text \<open>
  An entry of jurisdiction \<open>us\<close> with \<open>trustScore = 7\<close> has the effective score 7, above
  the ceiling of 4; without the field its score is computed (1 + 1 + 0 + 0 - 0 = 2).
\<close>

theorem getEffectiveTrustScore_override_witness:
  "trustScore example_override = Some 7 \<and> country example_override = ''us''
   \<and> getEffectiveTrustScore example_override = 7
   \<and> trustScore (example_override\<lparr>trustScore := None\<rparr>) = None
   \<and> getEffectiveTrustScore (example_override\<lparr>trustScore := None\<rparr>) = 2"
proof -
  have h1: "trustScore example_override = Some 7" "country example_override = ''us''"
    by (simp_all add: example_override_def)
  have h2: "trustScore (example_override\<lparr>trustScore := None\<rparr>) = None"
    by simp
  have s: "score (calculateTrustScore (example_override\<lparr>trustScore := None\<rparr>)) = 2"
    by (simp add: score_calculateTrustScore usCapApplied_calculateTrustScore example_override_def
          example_scores example_jurisdiction getOpennessScore_def getSovereigntyScore_def
          getReservationPenalty_def clampScore_def)
  from getEffectiveTrustScore_override [of example_override 7]
       getEffectiveTrustScore_override [of "example_override\<lparr>trustScore := None\<rparr>" 0]
       h1 h2 s
  show ?thesis by simp
qed

theorem getPrivacySignalScore_groups_witness:
  "[''GDPR'', ''Encryption''] \<noteq> []
   \<and> toLowerCase ''GDPR'' \<in> set privacyTagGroupPrimary
   \<and> toLowerCase ''Encryption'' \<in> set privacyTagGroupPrimary
   \<and> getPrivacySignalScore [''GDPR'', ''Encryption''] = 1
   \<and> ''gdpr'' \<in> set privacyTagGroupPrimary \<and> getPrivacySignalScore [''gdpr''] = 1"
proof -
  have h: "[''GDPR'', ''Encryption''] \<noteq> []"
    "toLowerCase ''GDPR'' \<in> set privacyTagGroupPrimary"
    "toLowerCase ''Encryption'' \<in> set privacyTagGroupPrimary"
    by (simp_all add: toLowerCase_def toLowerChar_def upperCaseLetters_def lowerCaseLetters_def privacyTagGroupPrimary_def)
  then have h': "\<forall>t \<in> set [''GDPR'', ''Encryption'']. toLowerCase t \<in> set privacyTagGroupPrimary"
    by simp
  have g: "''gdpr'' \<in> set privacyTagGroupPrimary"
    by (simp add: privacyTagGroupPrimary_def)
  from h h' g getPrivacySignalScore_groups [of "[''GDPR'', ''Encryption'']" "''gdpr''"]
  show ?thesis by blast
qed

theorem getJurisdictionScore_lookup_witness:
  "''de'' \<in> set euMemberStates \<and> getJurisdictionScore ''de'' = 4
   \<and> ''ch'' \<in> set europeanNonEU \<and> getJurisdictionScore ''ch'' = 3
   \<and> ''ca'' \<notin> set euMemberStates \<and> ''ca'' \<notin> set europeanNonEU \<and> ''ca'' \<noteq> ''eu''
   \<and> ''ca'' \<noteq> ''us'' \<and> getJurisdictionScore ''ca'' = 2"
proof -
  have h: "''de'' \<in> set euMemberStates" "''ch'' \<in> set europeanNonEU"
    "''ca'' \<notin> set euMemberStates \<and> ''ca'' \<notin> set europeanNonEU \<and> ''ca'' \<noteq> ''eu''
      \<and> ''ca'' \<noteq> ''us''"
    by (simp_all add: euMemberStates_def europeanNonEU_def)
  from h getJurisdictionScore_lookup [of "''de''"] getJurisdictionScore_lookup [of "''ch''"]
       getJurisdictionScore_lookup [of "''ca''"]
  show ?thesis by blast
qed

theorem absent_optional_fields_witness:
  "selfHostable example_us_absent = None \<and> reservations example_us_absent = None
   \<and> country example_us_absent = ''us''
   \<and> sovereigntyBonus (breakdown (calculateTrustScore example_us_absent)) = 0
   \<and> reservationPenalty (breakdown (calculateTrustScore example_us_absent)) = 0
   \<and> usCapApplied (breakdown (calculateTrustScore example_us_absent))
   \<and> score (calculateTrustScore example_us_absent) \<le> 4"
proof -
  have h: "selfHostable example_us_absent = None" "reservations example_us_absent = None"
    "country example_us_absent = ''us''"
    by (simp_all add: example_us_absent_def)
  have r: "4 < getJurisdictionScore (country example_us_absent) + getOpennessScore example_us_absent
                     + getPrivacySignalScore (tags example_us_absent) - 0"
    by (simp add: example_us_absent_def example_scores example_jurisdiction getOpennessScore_def)
  from h absent_optional_fields [of example_us_absent]
  have a: "sovereigntyBonus (breakdown (calculateTrustScore example_us_absent)) = 0"
    "reservationPenalty (breakdown (calculateTrustScore example_us_absent)) = 0"
    "score (calculateTrustScore example_us_absent) \<le> 4"
    "usCapApplied (breakdown (calculateTrustScore example_us_absent)) \<longleftrightarrow>
       4 < getJurisdictionScore (country example_us_absent) + getOpennessScore example_us_absent
           + getPrivacySignalScore (tags example_us_absent)
           - reservationPenalty (breakdown (calculateTrustScore example_us_absent))"
    by blast+
  from a(4) r have "usCapApplied (breakdown (calculateTrustScore example_us_absent))"
    by (simp only: a(2))
  with h a show ?thesis by blast
qed

section \<open>Properties of the query pipeline\<close>

lemma mset_insort_cmp: "mset (insort_cmp cmp x ys) = add_mset x (mset ys)"
  by (induction ys) simp_all

lemma mset_array_sort: "mset (array_sort cmp xs) = mset xs"
  by (induction xs) (simp_all add: array_sort_def mset_insort_cmp)

lemma length_array_sort: "length (array_sort cmp xs) = length xs"
  using mset_array_sort [of cmp xs] by (metis size_mset)

lemma set_array_sort: "set (array_sort cmp xs) = set xs"
  using mset_array_sort [of cmp xs] by (metis set_mset_mset)

lemma set_insort_cmp: "set (insort_cmp cmp x ys) = insert x (set ys)"
  using mset_insort_cmp [of cmp x ys] by (metis set_mset_mset set_mset_add_mset_insert)

lemma insort_cmp_front: "\<forall>y. cmp x y \<le> 0 \<Longrightarrow> insort_cmp cmp x ys = x # ys"
  by (cases ys) simp_all

lemma array_sort_noop: "\<forall>x y. cmp x y = 0 \<Longrightarrow> array_sort cmp xs = xs"
  by (induction xs) (simp_all add: array_sort_def insort_cmp_front)

lemma sortComparator_noop:
  "sortBy \<noteq> ''name'' \<Longrightarrow> sortBy \<noteq> ''country'' \<Longrightarrow> sortBy \<noteq> ''category''
     \<Longrightarrow> sortComparator lc sortBy a b = 0"
  by (simp add: sortComparator_def)

lemma sorted_insort_cmp:
  assumes "consistent cmp" and "sorted_wrt (\<lambda>a b. cmp a b \<le> 0) ys"
  shows "sorted_wrt (\<lambda>a b. cmp a b \<le> 0) (insort_cmp cmp x ys)"
  using assms(2)
proof (induction ys)
  case Nil
  show ?case by simp
next
  case (Cons y ys)
  show ?case
  proof (cases "cmp x y \<le> 0")
    case True
    have "cmp x z \<le> 0" if "z \<in> set ys" for z
      using True Cons.prems that assms(1) unfolding consistent_def
      by (metis sorted_wrt.simps(2))
    with True Cons.prems show ?thesis by simp
  next
    case False
    then have "cmp y x \<le> 0"
      using assms(1) unfolding consistent_def by blast
    with False Cons show ?thesis
      by (simp add: set_insort_cmp)
  qed
qed

lemma sorted_array_sort:
  "consistent cmp \<Longrightarrow> sorted_wrt (\<lambda>a b. cmp a b \<le> 0) (array_sort cmp xs)"
  by (induction xs) (simp_all add: array_sort_def sorted_insort_cmp)

lemma filter_insort_cmp:
  assumes "consistent cmp"
  shows "filter (\<lambda>y. cmp y k \<le> 0 \<and> cmp k y \<le> 0) (insort_cmp cmp x ys) =
           (if cmp x k \<le> 0 \<and> cmp k x \<le> 0
            then x # filter (\<lambda>y. cmp y k \<le> 0 \<and> cmp k y \<le> 0) ys
            else filter (\<lambda>y. cmp y k \<le> 0 \<and> cmp k y \<le> 0) ys)"
proof (induction ys)
  case Nil
  show ?case by simp
next
  case (Cons y ys)
  have "\<not> (cmp y k \<le> 0 \<and> cmp k y \<le> 0)"
    if "\<not> cmp x y \<le> 0" "cmp x k \<le> 0 \<and> cmp k x \<le> 0"
    using that assms unfolding consistent_def by blast
  with Cons show ?case by auto
qed

lemma stable_array_sort:
  "consistent cmp \<Longrightarrow>
     filter (\<lambda>y. cmp y k \<le> 0 \<and> cmp k y \<le> 0) (array_sort cmp xs) =
     filter (\<lambda>y. cmp y k \<le> 0 \<and> cmp k y \<le> 0) xs"
  by (induction xs) (simp_all add: array_sort_def filter_insort_cmp)

lemma consistent_sortComparator:
  assumes "consistent lc"
  shows "consistent (sortComparator lc sortBy)"
proof -
  have key: "consistent (\<lambda>a b. lc (f a) (f b))" for f :: "Alternative \<Rightarrow> string"
    unfolding consistent_def
  proof (intro conjI allI impI)
    fix x y
    show "lc (f x) (f y) \<le> 0 \<or> lc (f y) (f x) \<le> 0"
      using assms unfolding consistent_def by blast
  next
    fix x y z
    assume "lc (f x) (f y) \<le> 0 \<and> lc (f y) (f z) \<le> 0"
    then show "lc (f x) (f z) \<le> 0"
      using assms unfolding consistent_def by blast
  qed
  have zero: "consistent (\<lambda>(a::Alternative) (b::Alternative). 0 :: int)"
    by (simp add: consistent_def)
  consider (n) "sortBy = ''name''"
    | (c) "sortBy \<noteq> ''name''" "sortBy = ''country''"
    | (g) "sortBy \<noteq> ''name''" "sortBy \<noteq> ''country''" "sortBy = ''category''"
    | (o) "sortBy \<noteq> ''name''" "sortBy \<noteq> ''country''" "sortBy \<noteq> ''category''"
    by blast
  then show ?thesis
  proof cases
    case n
    then have "sortComparator lc sortBy = (\<lambda>a b. lc (name a) (name b))"
      by (simp add: sortComparator_def fun_eq_iff)
    then show ?thesis by (simp only: key)
  next
    case c
    then have "sortComparator lc sortBy = (\<lambda>a b. lc (country a) (country b))"
      by (simp add: sortComparator_def fun_eq_iff)
    then show ?thesis by (simp only: key)
  next
    case g
    then have "sortComparator lc sortBy = (\<lambda>a b. lc (category a) (category b))"
      by (simp add: sortComparator_def fun_eq_iff)
    then show ?thesis by (simp only: key)
  next
    case o
    then have "sortComparator lc sortBy = (\<lambda>a b. 0)"
      by (simp add: sortComparator_def fun_eq_iff)
    then show ?thesis by (simp only: zero)
  qed
qed


lemma filteredAlternatives_eq:
  "filteredAlternatives lc alts term sf sortBy =
     array_sort (sortComparator lc sortBy)
       (filter (\<lambda>alt. (trim term \<noteq> [] \<longrightarrow> searchMatches (toLowerCase term) alt)
                  \<and> (sel_category sf \<noteq> [] \<longrightarrow> category alt \<in> set (sel_category sf))
                  \<and> (sel_country sf \<noteq> [] \<longrightarrow> country alt \<in> set (sel_country sf))
                  \<and> (sel_pricing sf \<noteq> [] \<longrightarrow> pricing alt \<in> set (sel_pricing sf))
                  \<and> (openSourceOnly sf \<longrightarrow> isOpenSource alt)) alts)"
  by (simp add: filteredAlternatives_def Let_def conj_commute conj_left_commute)

text \<open>
  For a consistent \<open>localeCompare\<close> the result is ordered by the comparator of the sort
  key, and entries that compare equal keep the order that they have without sorting.
\<close>

lemma filteredAlternatives_sorted_stable:
  assumes "consistent lc"
  shows "sorted_wrt (\<lambda>a b. sortComparator lc sortBy a b \<le> 0)
           (filteredAlternatives lc alts searchTerm sf sortBy)"
    and "filter (\<lambda>y. sortComparator lc sortBy y k \<le> 0 \<and> sortComparator lc sortBy k y \<le> 0)
           (filteredAlternatives lc alts searchTerm sf sortBy) =
         filter (\<lambda>y. sortComparator lc sortBy y k \<le> 0 \<and> sortComparator lc sortBy k y \<le> 0)
           (filteredAlternatives lc alts searchTerm sf ''none'')"
proof -
  have c: "consistent (sortComparator lc sortBy)"
    using assms by (rule consistent_sortComparator)
  show "sorted_wrt (\<lambda>a b. sortComparator lc sortBy a b \<le> 0)
           (filteredAlternatives lc alts searchTerm sf sortBy)"
    unfolding filteredAlternatives_eq using c by (rule sorted_array_sort)
  have "array_sort (sortComparator lc ''none'') xs = xs" for xs
    by (rule array_sort_noop) (simp add: sortComparator_def)
  then show "filter (\<lambda>y. sortComparator lc sortBy y k \<le> 0 \<and> sortComparator lc sortBy k y \<le> 0)
           (filteredAlternatives lc alts searchTerm sf sortBy) =
         filter (\<lambda>y. sortComparator lc sortBy y k \<le> 0 \<and> sortComparator lc sortBy k y \<le> 0)
           (filteredAlternatives lc alts searchTerm sf ''none'')"
    unfolding filteredAlternatives_eq using stable_array_sort [OF c] by simp
qed














text \<open>
  C6: the result holds exactly the entries of the catalogue, with their multiplicities, that
  satisfy every active filter. With no filter active the result has the content and the
  length of the catalogue, and it is the catalogue itself when the sort key is none of
  \<open>name\<close>, \<open>country\<close>, \<open>category\<close>. With only \<open>openSourceOnly\<close> set, every entry of the
  result is open source, and under such a sort key the result is the catalogue without its
  entries that are not open source, in the catalogue's order.
\<close>

theorem filters_conjunctive:
  "mset (filteredAlternatives lc alts term sf sortBy) =
     filter_mset (\<lambda>alt. (trim term \<noteq> [] \<longrightarrow> searchMatches (toLowerCase term) alt)
                  \<and> (sel_category sf \<noteq> [] \<longrightarrow> category alt \<in> set (sel_category sf))
                  \<and> (sel_country sf \<noteq> [] \<longrightarrow> country alt \<in> set (sel_country sf))
                  \<and> (sel_pricing sf \<noteq> [] \<longrightarrow> pricing alt \<in> set (sel_pricing sf))
                  \<and> (openSourceOnly sf \<longrightarrow> isOpenSource alt)) (mset alts)
   \<and> (trim term = [] \<and> sel_category sf = [] \<and> sel_country sf = [] \<and> sel_pricing sf = []
        \<and> \<not> openSourceOnly sf \<longrightarrow>
          mset (filteredAlternatives lc alts term sf sortBy) = mset alts
          \<and> length (filteredAlternatives lc alts term sf sortBy) = length alts
          \<and> (sortBy \<noteq> ''name'' \<and> sortBy \<noteq> ''country'' \<and> sortBy \<noteq> ''category''
               \<longrightarrow> filteredAlternatives lc alts term sf sortBy = alts))
   \<and> (trim term = [] \<and> sel_category sf = [] \<and> sel_country sf = [] \<and> sel_pricing sf = []
        \<and> openSourceOnly sf \<longrightarrow>
          (\<forall>alt \<in> set (filteredAlternatives lc alts term sf sortBy). isOpenSource alt)
          \<and> mset (filteredAlternatives lc alts term sf sortBy) = filter_mset isOpenSource (mset alts)
          \<and> (sortBy \<noteq> ''name'' \<and> sortBy \<noteq> ''country'' \<and> sortBy \<noteq> ''category''
               \<longrightarrow> filteredAlternatives lc alts term sf sortBy = filter isOpenSource alts))"
proof -
  have noop: "array_sort (sortComparator lc sortBy) xs = xs"
    if "sortBy \<noteq> ''name'' \<and> sortBy \<noteq> ''country'' \<and> sortBy \<noteq> ''category''" for xs
    using that by (intro array_sort_noop) (simp add: sortComparator_noop)
  have 1: "mset (filteredAlternatives lc alts term sf sortBy) =
     filter_mset (\<lambda>alt. (trim term \<noteq> [] \<longrightarrow> searchMatches (toLowerCase term) alt)
                  \<and> (sel_category sf \<noteq> [] \<longrightarrow> category alt \<in> set (sel_category sf))
                  \<and> (sel_country sf \<noteq> [] \<longrightarrow> country alt \<in> set (sel_country sf))
                  \<and> (sel_pricing sf \<noteq> [] \<longrightarrow> pricing alt \<in> set (sel_pricing sf))
                  \<and> (openSourceOnly sf \<longrightarrow> isOpenSource alt)) (mset alts)"
    by (simp only: filteredAlternatives_eq mset_array_sort mset_filter)
  have 2: "mset (filteredAlternatives lc alts term sf sortBy) = mset alts
          \<and> length (filteredAlternatives lc alts term sf sortBy) = length alts
          \<and> (sortBy \<noteq> ''name'' \<and> sortBy \<noteq> ''country'' \<and> sortBy \<noteq> ''category''
               \<longrightarrow> filteredAlternatives lc alts term sf sortBy = alts)"
    if "trim term = [] \<and> sel_category sf = [] \<and> sel_country sf = [] \<and> sel_pricing sf = []
        \<and> \<not> openSourceOnly sf"
    using that noop by (simp add: filteredAlternatives_eq mset_array_sort length_array_sort)
  have 3: "(\<forall>alt \<in> set (filteredAlternatives lc alts term sf sortBy). isOpenSource alt)
          \<and> mset (filteredAlternatives lc alts term sf sortBy) = filter_mset isOpenSource (mset alts)
          \<and> (sortBy \<noteq> ''name'' \<and> sortBy \<noteq> ''country'' \<and> sortBy \<noteq> ''category''
               \<longrightarrow> filteredAlternatives lc alts term sf sortBy = filter isOpenSource alts)"
    if "trim term = [] \<and> sel_category sf = [] \<and> sel_country sf = [] \<and> sel_pricing sf = []
        \<and> openSourceOnly sf"
    using that noop by (simp add: filteredAlternatives_eq mset_array_sort set_array_sort)
  from 1 2 3 show ?thesis by blast
qed

theorem filters_conjunctive_witness:
  "trim [] = [] \<and> sel_category noFilters = [] \<and> sel_country noFilters = []
   \<and> sel_pricing noFilters = [] \<and> \<not> openSourceOnly noFilters
   \<and> openSourceOnly (noFilters\<lparr>openSourceOnly := True\<rparr>)
   \<and> ''trustScore'' \<noteq> ''name'' \<and> ''trustScore'' \<noteq> ''country'' \<and> ''trustScore'' \<noteq> ''category''
   \<and> filteredAlternatives (\<lambda>a b. 0) [alt_mailbox, alt_nextcloud, alt_proton] [] noFilters
        ''trustScore'' = [alt_mailbox, alt_nextcloud, alt_proton]
   \<and> filteredAlternatives (\<lambda>a b. 0) [alt_mailbox, alt_nextcloud, alt_proton] []
        (noFilters\<lparr>openSourceOnly := True\<rparr>) ''trustScore'' = [alt_nextcloud, alt_proton]"
proof -
  have h: "trim [] = []" "sel_category noFilters = []" "sel_country noFilters = []"
    "sel_pricing noFilters = []" "\<not> openSourceOnly noFilters"
    "sel_category (noFilters\<lparr>openSourceOnly := True\<rparr>) = []"
    "sel_country (noFilters\<lparr>openSourceOnly := True\<rparr>) = []"
    "sel_pricing (noFilters\<lparr>openSourceOnly := True\<rparr>) = []"
    "openSourceOnly (noFilters\<lparr>openSourceOnly := True\<rparr>)"
    by (simp_all add: noFilters_def trim_def)
  have k: "''trustScore'' \<noteq> ''name''" "''trustScore'' \<noteq> ''country''"
    "''trustScore'' \<noteq> ''category''"
    by simp_all
  have f: "filter isOpenSource [alt_mailbox, alt_nextcloud, alt_proton] = [alt_nextcloud, alt_proton]"
    by (simp add: alt_mailbox_def alt_nextcloud_def alt_proton_def)
  from filters_conjunctive [of "\<lambda>a b. 0" "[alt_mailbox, alt_nextcloud, alt_proton]" "[]" noFilters
         "''trustScore''"] h k
  have 1: "filteredAlternatives (\<lambda>a b. 0) [alt_mailbox, alt_nextcloud, alt_proton] [] noFilters
        ''trustScore'' = [alt_mailbox, alt_nextcloud, alt_proton]"
    by blast
  from filters_conjunctive [of "\<lambda>a b. 0" "[alt_mailbox, alt_nextcloud, alt_proton]" "[]"
         "noFilters\<lparr>openSourceOnly := True\<rparr>" "''trustScore''"] h k
  have "filteredAlternatives (\<lambda>a b. 0) [alt_mailbox, alt_nextcloud, alt_proton] []
        (noFilters\<lparr>openSourceOnly := True\<rparr>) ''trustScore''
          = filter isOpenSource [alt_mailbox, alt_nextcloud, alt_proton]"
    by blast
  with f have 2: "filteredAlternatives (\<lambda>a b. 0) [alt_mailbox, alt_nextcloud, alt_proton] []
        (noFilters\<lparr>openSourceOnly := True\<rparr>) ''trustScore'' = [alt_nextcloud, alt_proton]"
    by simp
  from h k 1 2 show ?thesis by blast
qed

text \<open>
  C4: the sort key \<open>trustScore\<close>, which the type \<open>SortBy\<close> declares, has no case in the
  comparator and falls to its \<open>default\<close> branch. The result for a catalogue with the trust
  scores 5, 9, 3 keeps that order, which is neither ascending nor descending: it is not
  ordered by a numeric comparison of the trust score. For the keys \<open>name\<close>, \<open>country\<close> and
  \<open>category\<close> the lemma \<open>filteredAlternatives_sorted_stable\<close> above gives the stable
  order by \<open>localeCompare\<close>.
\<close>

theorem sort_by_trustScore_keeps_order:
  "filteredAlternatives lc [alt_mailbox, alt_nextcloud, alt_proton] [] noFilters ''trustScore''
     = [alt_mailbox, alt_nextcloud, alt_proton]
   \<and> map getEffectiveTrustScore
         (filteredAlternatives lc [alt_mailbox, alt_nextcloud, alt_proton] [] noFilters
            ''trustScore'') = [5, 9, 3]
   \<and> \<not> sorted (map getEffectiveTrustScore
         (filteredAlternatives lc [alt_mailbox, alt_nextcloud, alt_proton] [] noFilters
            ''trustScore''))
   \<and> \<not> sorted (rev (map getEffectiveTrustScore
         (filteredAlternatives lc [alt_mailbox, alt_nextcloud, alt_proton] [] noFilters
            ''trustScore'')))"
proof -
  have "array_sort (sortComparator lc ''trustScore'') xs = xs" for xs
    by (rule array_sort_noop) (simp add: sortComparator_def)
  then have 1: "filteredAlternatives lc [alt_mailbox, alt_nextcloud, alt_proton] [] noFilters
      ''trustScore'' = [alt_mailbox, alt_nextcloud, alt_proton]"
    by (simp add: filteredAlternatives_eq noFilters_def trim_def)
  have 2: "map getEffectiveTrustScore [alt_mailbox, alt_nextcloud, alt_proton] = [5, 9, 3]"
    by (simp add: getEffectiveTrustScore_def alt_mailbox_def alt_nextcloud_def alt_proton_def)
  have 3: "\<not> sorted [5, 9, 3 :: int]" "\<not> sorted (rev [5, 9, 3 :: int])"
    by simp_all
  from 1 2 3 show ?thesis by simp
qed

section \<open>Properties of the validation tool\<close>

text \<open>
  Each loop only appends to the failure list, so every failure found is in the result:
  both texts report, for every entry of the catalogue, missing comparisons, a ready
  comparison without a numeric score and a repeated comparison id; the script in
  \<open>scripts/\<close> also reports a pending comparison with a score, the other text a ready
  comparison without reservations.
\<close>

lemma vendorStep_shape:
  "\<exists>fs'. vendorStep aid v (fs, n, seen) = (fs @ fs', Suc n, insert (vendor_id v) seen)
     \<and> (trustScoreStatus v = ''ready'' \<and> vendor_trustScore v = None
          \<longrightarrow> ReadyWithoutScore aid (vendor_id v) \<in> set fs')
     \<and> (trustScoreStatus v = ''pending'' \<and> vendor_trustScore v \<noteq> None
          \<longrightarrow> PendingWithScore aid (vendor_id v) \<in> set fs')
     \<and> (vendor_id v \<in> seen \<longrightarrow> DuplicateVendorId aid (vendor_id v) \<in> set fs')"
  by (auto simp: vendorStep_def Let_def insert_absorb)

lemma fold_vendorStep:
  "\<exists>fs'. fold (vendorStep aid) vs (fs, n, seen) =
           (fs @ fs', n + length vs, seen \<union> vendor_id ` set vs)
     \<and> (\<forall>v \<in> set vs. trustScoreStatus v = ''ready'' \<and> vendor_trustScore v = None
          \<longrightarrow> ReadyWithoutScore aid (vendor_id v) \<in> set fs')
     \<and> (\<forall>v \<in> set vs. trustScoreStatus v = ''pending'' \<and> vendor_trustScore v \<noteq> None
          \<longrightarrow> PendingWithScore aid (vendor_id v) \<in> set fs')
     \<and> (\<forall>v \<in> set vs. vendor_id v \<in> seen \<longrightarrow> DuplicateVendorId aid (vendor_id v) \<in> set fs')
     \<and> (\<not> distinct (map vendor_id vs)
          \<longrightarrow> (\<exists>v \<in> set vs. DuplicateVendorId aid (vendor_id v) \<in> set fs'))"
proof (induction vs arbitrary: fs n seen)
  case Nil
  show ?case by simp
next
  case (Cons v vs)
  obtain f1 where 1: "vendorStep aid v (fs, n, seen) = (fs @ f1, Suc n, insert (vendor_id v) seen)"
    and r1: "trustScoreStatus v = ''ready'' \<and> vendor_trustScore v = None
          \<longrightarrow> ReadyWithoutScore aid (vendor_id v) \<in> set f1"
    and p1: "trustScoreStatus v = ''pending'' \<and> vendor_trustScore v \<noteq> None
          \<longrightarrow> PendingWithScore aid (vendor_id v) \<in> set f1"
    and d1: "vendor_id v \<in> seen \<longrightarrow> DuplicateVendorId aid (vendor_id v) \<in> set f1"
    using vendorStep_shape [of aid v fs n seen] by blast
  obtain f2 where 2: "fold (vendorStep aid) vs (fs @ f1, Suc n, insert (vendor_id v) seen) =
           ((fs @ f1) @ f2, Suc n + length vs, insert (vendor_id v) seen \<union> vendor_id ` set vs)"
    and r2: "\<forall>w \<in> set vs. trustScoreStatus w = ''ready'' \<and> vendor_trustScore w = None
          \<longrightarrow> ReadyWithoutScore aid (vendor_id w) \<in> set f2"
    and p2: "\<forall>w \<in> set vs. trustScoreStatus w = ''pending'' \<and> vendor_trustScore w \<noteq> None
          \<longrightarrow> PendingWithScore aid (vendor_id w) \<in> set f2"
    and d2: "\<forall>w \<in> set vs. vendor_id w \<in> insert (vendor_id v) seen
          \<longrightarrow> DuplicateVendorId aid (vendor_id w) \<in> set f2"
    and n2: "\<not> distinct (map vendor_id vs)
          \<longrightarrow> (\<exists>w \<in> set vs. DuplicateVendorId aid (vendor_id w) \<in> set f2)"
    using Cons.IH [of "fs @ f1" "Suc n" "insert (vendor_id v) seen"] by blast
  have eq: "fold (vendorStep aid) (v # vs) (fs, n, seen) =
      (fs @ (f1 @ f2), n + length (v # vs), seen \<union> vendor_id ` set (v # vs))"
    by (simp add: 1 2)
  have r: "\<forall>w \<in> set (v # vs). trustScoreStatus w = ''ready'' \<and> vendor_trustScore w = None
          \<longrightarrow> ReadyWithoutScore aid (vendor_id w) \<in> set (f1 @ f2)"
    using r1 r2 by auto
  have p: "\<forall>w \<in> set (v # vs). trustScoreStatus w = ''pending'' \<and> vendor_trustScore w \<noteq> None
          \<longrightarrow> PendingWithScore aid (vendor_id w) \<in> set (f1 @ f2)"
    using p1 p2 by auto
  have d: "\<forall>w \<in> set (v # vs). vendor_id w \<in> seen
          \<longrightarrow> DuplicateVendorId aid (vendor_id w) \<in> set (f1 @ f2)"
    using d1 d2 by auto
  have nd: "\<exists>w \<in> set (v # vs). DuplicateVendorId aid (vendor_id w) \<in> set (f1 @ f2)"
    if "\<not> distinct (map vendor_id (v # vs))"
  proof (cases "vendor_id v \<in> vendor_id ` set vs")
    case True
    then obtain w where "w \<in> set vs" "vendor_id w = vendor_id v" by auto
    with d2 show ?thesis by auto
  next
    case False
    with that have "\<not> distinct (map vendor_id vs)" by simp
    with n2 show ?thesis by auto
  qed
  from eq r p d nd show ?case by blast
qed


lemma reported_mono:
  "set fs \<subseteq> set fs' \<Longrightarrow> reported alt fs \<Longrightarrow> reported alt fs'"
  "set fs \<subseteq> set fs' \<Longrightarrow> reportedPending alt fs \<Longrightarrow> reportedPending alt fs'"
  "set fs \<subseteq> set fs' \<Longrightarrow> reportedReservations alt fs \<Longrightarrow> reportedReservations alt fs'"
  unfolding reported_def reportedPending_def reportedReservations_def by blast+

lemma alternativeStep_eq:
  "alternativeStep alt (fs, n) =
     (if replacesUS alt \<noteq> [] \<and> comparisonsOf alt = []
      then (fs @ [MissingComparisons (alt_id alt)], n)
      else (case fold (vendorStep (alt_id alt)) (comparisonsOf alt) (fs, n, {}) of
              (fs', compared', seenIds) \<Rightarrow> (fs', compared')))"
  by (simp add: alternativeStep_def comparisonsOf_def Let_def)

lemma alternativeStep_B_eq:
  "alternativeStep_B alt (fs, n) =
     (if replacesUS alt \<noteq> [] \<and> comparisonsOf alt = []
      then (fs @ [MissingComparisons (alt_id alt)], n)
      else (case fold (vendorStep_B (alt_id alt)) (comparisonsOf alt) (fs, n, {}) of
              (fs', compared', seenIds) \<Rightarrow> (fs', compared')))"
  by (simp add: alternativeStep_B_def comparisonsOf_def Let_def)

lemma alternativeStep_shape:
  "\<exists>fs' n'. alternativeStep alt (fs, n) = (fs @ fs', n')
     \<and> reported alt fs' \<and> reportedPending alt fs'"
proof (cases "replacesUS alt \<noteq> [] \<and> comparisonsOf alt = []")
  case True
  then have "alternativeStep alt (fs, n) = (fs @ [MissingComparisons (alt_id alt)], n)"
    by (simp add: alternativeStep_eq)
  moreover from True have "reported alt [MissingComparisons (alt_id alt)]"
    "reportedPending alt [MissingComparisons (alt_id alt)]"
    by (simp_all add: reported_def reportedPending_def)
  ultimately show ?thesis by blast
next
  case False
  obtain f where f: "fold (vendorStep (alt_id alt)) (comparisonsOf alt) (fs, n, {}) =
           (fs @ f, n + length (comparisonsOf alt), {} \<union> vendor_id ` set (comparisonsOf alt))"
    and r: "\<forall>v \<in> set (comparisonsOf alt). trustScoreStatus v = ''ready'' \<and> vendor_trustScore v = None
          \<longrightarrow> ReadyWithoutScore (alt_id alt) (vendor_id v) \<in> set f"
    and p: "\<forall>v \<in> set (comparisonsOf alt). trustScoreStatus v = ''pending'' \<and> vendor_trustScore v \<noteq> None
          \<longrightarrow> PendingWithScore (alt_id alt) (vendor_id v) \<in> set f"
    and d: "\<not> distinct (map vendor_id (comparisonsOf alt))
          \<longrightarrow> (\<exists>v \<in> set (comparisonsOf alt). DuplicateVendorId (alt_id alt) (vendor_id v) \<in> set f)"
    using fold_vendorStep [of "alt_id alt" "comparisonsOf alt" fs n "{}"] by blast
  from False f have "alternativeStep alt (fs, n) = (fs @ f, n + length (comparisonsOf alt))"
    by (auto simp: alternativeStep_eq)
  moreover from False r d have "reported alt f"
    unfolding reported_def by blast
  moreover from p have "reportedPending alt f"
    unfolding reportedPending_def by blast
  ultimately show ?thesis by blast
qed

lemma fold_alternativeStep:
  "\<exists>fs' n'. fold alternativeStep alts (fs, n) = (fs @ fs', n')
     \<and> (\<forall>alt \<in> set alts. reported alt fs' \<and> reportedPending alt fs')"
proof (induction alts arbitrary: fs n)
  case Nil
  show ?case by simp
next
  case (Cons a alts)
  obtain f1 n1 where 1: "alternativeStep a (fs, n) = (fs @ f1, n1)"
    and r1: "reported a f1" "reportedPending a f1"
    using alternativeStep_shape [of a fs n] by blast
  obtain f2 n2 where 2: "fold alternativeStep alts (fs @ f1, n1) = ((fs @ f1) @ f2, n2)"
    and r2: "\<forall>alt \<in> set alts. reported alt f2 \<and> reportedPending alt f2"
    using Cons.IH [of "fs @ f1" n1] by blast
  have "fold alternativeStep (a # alts) (fs, n) = (fs @ (f1 @ f2), n2)"
    by (simp add: 1 2)
  moreover have "\<forall>alt \<in> set (a # alts). reported alt (f1 @ f2) \<and> reportedPending alt (f1 @ f2)"
    using r1 r2 reported_mono(1,2) [of f1 "f1 @ f2"] reported_mono(1,2) [of f2 "f1 @ f2"]
    by auto
  ultimately show ?case by blast
qed

lemma validateUSVendorComparisons_reports:
  assumes "alt \<in> set alts"
  shows "reported alt (failures (validateUSVendorComparisons alts))"
    and "reportedPending alt (failures (validateUSVendorComparisons alts))"
proof -
  obtain f n' where "fold alternativeStep alts ([], 0) = ([] @ f, n')"
    and "\<forall>alt \<in> set alts. reported alt f \<and> reportedPending alt f"
    using fold_alternativeStep [of alts "[]" 0] by blast
  with assms show "reported alt (failures (validateUSVendorComparisons alts))"
    and "reportedPending alt (failures (validateUSVendorComparisons alts))"
    by (simp_all add: validateUSVendorComparisons_def)
qed

lemma exitStatus_nonzero: "exitStatus r \<noteq> 0 \<longleftrightarrow> failures r \<noteq> []"
  by (simp add: exitStatus_def)

lemma vendorStep_B_shape:
  "\<exists>fs'. vendorStep_B aid v (fs, n, seen) = (fs @ fs', Suc n, insert (vendor_id v) seen)
     \<and> (trustScoreStatus v = ''ready'' \<and> vendor_trustScore v = None
          \<longrightarrow> ReadyWithoutScore aid (vendor_id v) \<in> set fs')
     \<and> (trustScoreStatus v = ''ready''
          \<and> (vendor_reservations v = None \<or> vendor_reservations v = Some [])
          \<longrightarrow> ReadyWithoutReservations aid (vendor_id v) \<in> set fs')
     \<and> (vendor_id v \<in> seen \<longrightarrow> DuplicateVendorId aid (vendor_id v) \<in> set fs')"
  by (auto simp: vendorStep_B_def Let_def insert_absorb split: option.splits)

lemma fold_vendorStep_B:
  "\<exists>fs'. fold (vendorStep_B aid) vs (fs, n, seen) =
           (fs @ fs', n + length vs, seen \<union> vendor_id ` set vs)
     \<and> (\<forall>v \<in> set vs. trustScoreStatus v = ''ready'' \<and> vendor_trustScore v = None
          \<longrightarrow> ReadyWithoutScore aid (vendor_id v) \<in> set fs')
     \<and> (\<forall>v \<in> set vs. trustScoreStatus v = ''ready''
          \<and> (vendor_reservations v = None \<or> vendor_reservations v = Some [])
          \<longrightarrow> ReadyWithoutReservations aid (vendor_id v) \<in> set fs')
     \<and> (\<forall>v \<in> set vs. vendor_id v \<in> seen \<longrightarrow> DuplicateVendorId aid (vendor_id v) \<in> set fs')
     \<and> (\<not> distinct (map vendor_id vs)
          \<longrightarrow> (\<exists>v \<in> set vs. DuplicateVendorId aid (vendor_id v) \<in> set fs'))"
proof (induction vs arbitrary: fs n seen)
  case Nil
  show ?case by simp
next
  case (Cons v vs)
  obtain f1 where 1: "vendorStep_B aid v (fs, n, seen) = (fs @ f1, Suc n, insert (vendor_id v) seen)"
    and r1: "trustScoreStatus v = ''ready'' \<and> vendor_trustScore v = None
          \<longrightarrow> ReadyWithoutScore aid (vendor_id v) \<in> set f1"
    and p1: "trustScoreStatus v = ''ready''
          \<and> (vendor_reservations v = None \<or> vendor_reservations v = Some [])
          \<longrightarrow> ReadyWithoutReservations aid (vendor_id v) \<in> set f1"
    and d1: "vendor_id v \<in> seen \<longrightarrow> DuplicateVendorId aid (vendor_id v) \<in> set f1"
    using vendorStep_B_shape [of aid v fs n seen] by blast
  obtain f2 where 2: "fold (vendorStep_B aid) vs (fs @ f1, Suc n, insert (vendor_id v) seen) =
           ((fs @ f1) @ f2, Suc n + length vs, insert (vendor_id v) seen \<union> vendor_id ` set vs)"
    and r2: "\<forall>w \<in> set vs. trustScoreStatus w = ''ready'' \<and> vendor_trustScore w = None
          \<longrightarrow> ReadyWithoutScore aid (vendor_id w) \<in> set f2"
    and p2: "\<forall>w \<in> set vs. trustScoreStatus w = ''ready''
          \<and> (vendor_reservations w = None \<or> vendor_reservations w = Some [])
          \<longrightarrow> ReadyWithoutReservations aid (vendor_id w) \<in> set f2"
    and d2: "\<forall>w \<in> set vs. vendor_id w \<in> insert (vendor_id v) seen
          \<longrightarrow> DuplicateVendorId aid (vendor_id w) \<in> set f2"
    and n2: "\<not> distinct (map vendor_id vs)
          \<longrightarrow> (\<exists>w \<in> set vs. DuplicateVendorId aid (vendor_id w) \<in> set f2)"
    using Cons.IH [of "fs @ f1" "Suc n" "insert (vendor_id v) seen"] by blast
  have eq: "fold (vendorStep_B aid) (v # vs) (fs, n, seen) =
      (fs @ (f1 @ f2), n + length (v # vs), seen \<union> vendor_id ` set (v # vs))"
    by (simp add: 1 2)
  have r: "\<forall>w \<in> set (v # vs). trustScoreStatus w = ''ready'' \<and> vendor_trustScore w = None
          \<longrightarrow> ReadyWithoutScore aid (vendor_id w) \<in> set (f1 @ f2)"
    using r1 r2 by auto
  have p: "\<forall>w \<in> set (v # vs). trustScoreStatus w = ''ready''
          \<and> (vendor_reservations w = None \<or> vendor_reservations w = Some [])
          \<longrightarrow> ReadyWithoutReservations aid (vendor_id w) \<in> set (f1 @ f2)"
    using p1 p2 by auto
  have d: "\<forall>w \<in> set (v # vs). vendor_id w \<in> seen
          \<longrightarrow> DuplicateVendorId aid (vendor_id w) \<in> set (f1 @ f2)"
    using d1 d2 by auto
  have nd: "\<exists>w \<in> set (v # vs). DuplicateVendorId aid (vendor_id w) \<in> set (f1 @ f2)"
    if "\<not> distinct (map vendor_id (v # vs))"
  proof (cases "vendor_id v \<in> vendor_id ` set vs")
    case True
    then obtain w where "w \<in> set vs" "vendor_id w = vendor_id v" by auto
    with d2 show ?thesis by auto
  next
    case False
    with that have "\<not> distinct (map vendor_id vs)" by simp
    with n2 show ?thesis by auto
  qed
  from eq r p d nd show ?case by blast
qed

lemma alternativeStep_B_shape:
  "\<exists>fs' n'. alternativeStep_B alt (fs, n) = (fs @ fs', n')
     \<and> reported alt fs' \<and> reportedReservations alt fs'"
proof (cases "replacesUS alt \<noteq> [] \<and> comparisonsOf alt = []")
  case True
  then have "alternativeStep_B alt (fs, n) = (fs @ [MissingComparisons (alt_id alt)], n)"
    by (simp add: alternativeStep_B_eq)
  moreover from True have "reported alt [MissingComparisons (alt_id alt)]"
    "reportedReservations alt [MissingComparisons (alt_id alt)]"
    by (simp_all add: reported_def reportedReservations_def)
  ultimately show ?thesis by blast
next
  case False
  obtain f where f: "fold (vendorStep_B (alt_id alt)) (comparisonsOf alt) (fs, n, {}) =
           (fs @ f, n + length (comparisonsOf alt), {} \<union> vendor_id ` set (comparisonsOf alt))"
    and r: "\<forall>v \<in> set (comparisonsOf alt). trustScoreStatus v = ''ready'' \<and> vendor_trustScore v = None
          \<longrightarrow> ReadyWithoutScore (alt_id alt) (vendor_id v) \<in> set f"
    and p: "\<forall>v \<in> set (comparisonsOf alt). trustScoreStatus v = ''ready''
          \<and> (vendor_reservations v = None \<or> vendor_reservations v = Some [])
          \<longrightarrow> ReadyWithoutReservations (alt_id alt) (vendor_id v) \<in> set f"
    and d: "\<not> distinct (map vendor_id (comparisonsOf alt))
          \<longrightarrow> (\<exists>v \<in> set (comparisonsOf alt). DuplicateVendorId (alt_id alt) (vendor_id v) \<in> set f)"
    using fold_vendorStep_B [of "alt_id alt" "comparisonsOf alt" fs n "{}"] by blast
  from False f have "alternativeStep_B alt (fs, n) = (fs @ f, n + length (comparisonsOf alt))"
    by (auto simp: alternativeStep_B_eq)
  moreover from False r d have "reported alt f"
    unfolding reported_def by blast
  moreover from p have "reportedReservations alt f"
    unfolding reportedReservations_def by blast
  ultimately show ?thesis by blast
qed

lemma fold_alternativeStep_B:
  "\<exists>fs' n'. fold alternativeStep_B alts (fs, n) = (fs @ fs', n')
     \<and> (\<forall>alt \<in> set alts. reported alt fs' \<and> reportedReservations alt fs')"
proof (induction alts arbitrary: fs n)
  case Nil
  show ?case by simp
next
  case (Cons a alts)
  obtain f1 n1 where 1: "alternativeStep_B a (fs, n) = (fs @ f1, n1)"
    and r1: "reported a f1" "reportedReservations a f1"
    using alternativeStep_B_shape [of a fs n] by blast
  obtain f2 n2 where 2: "fold alternativeStep_B alts (fs @ f1, n1) = ((fs @ f1) @ f2, n2)"
    and r2: "\<forall>alt \<in> set alts. reported alt f2 \<and> reportedReservations alt f2"
    using Cons.IH [of "fs @ f1" n1] by blast
  have "fold alternativeStep_B (a # alts) (fs, n) = (fs @ (f1 @ f2), n2)"
    by (simp add: 1 2)
  moreover have "\<forall>alt \<in> set (a # alts). reported alt (f1 @ f2) \<and> reportedReservations alt (f1 @ f2)"
    using r1 r2 reported_mono(1,3) [of f1 "f1 @ f2"] reported_mono(1,3) [of f2 "f1 @ f2"]
    by auto
  ultimately show ?case by blast
qed

lemma validateUSVendorComparisons_B_reports:
  assumes "alt \<in> set alts"
  shows "reported alt (failures (validateUSVendorComparisons_B alts))"
    and "reportedReservations alt (failures (validateUSVendorComparisons_B alts))"
proof -
  obtain f n' where "fold alternativeStep_B alts ([], 0) = ([] @ f, n')"
    and "\<forall>alt \<in> set alts. reported alt f \<and> reportedReservations alt f"
    using fold_alternativeStep_B [of alts "[]" 0] by blast
  with assms show "reported alt (failures (validateUSVendorComparisons_B alts))"
    and "reportedReservations alt (failures (validateUSVendorComparisons_B alts))"
    by (simp_all add: validateUSVendorComparisons_B_def)
qed

text \<open>
  C9: a comparison marked \<open>ready\<close> with a numeric score and no reservation gets no failure
  from the script in \<open>scripts/\<close>, which ends with status 0; the other text of the script
  reports it. A comparison marked \<open>pending\<close> that carries a score gets no failure from the
  other text, which ends with status 0; the script in \<open>scripts/\<close> reports it. So neither
  text reports every violation.
\<close>

theorem validation_misses_violations:
  "failures (validateUSVendorComparisons [alt_ready_bare]) = []
   \<and> exitStatus (validateUSVendorComparisons [alt_ready_bare]) = 0
   \<and> failures (validateUSVendorComparisons_B [alt_ready_bare])
        = [ReadyWithoutReservations ''mailbox'' ''gmail'']
   \<and> failures (validateUSVendorComparisons_B [alt_pending_scored]) = []
   \<and> exitStatus (validateUSVendorComparisons_B [alt_pending_scored]) = 0
   \<and> failures (validateUSVendorComparisons [alt_pending_scored])
        = [PendingWithScore ''mailbox'' ''gmail'']"
  by (simp add: validateUSVendorComparisons_def validateUSVendorComparisons_B_def
        alternativeStep_def alternativeStep_B_def vendorStep_def vendorStep_B_def
        exitStatus_def alt_ready_bare_def alt_pending_scored_def alt_mailbox_def
        vendor_ready_bare_def vendor_pending_scored_def Let_def)

end
